theory Spec2Isabelle
  imports Main "HOL-Library.Word"
begin

unbundle bit_operations_syntax

section \<open>Verilator test harness of MyCPU (0-minimal): sim.cpp\<close>

text \<open>
  The harness owns three objects: the word memory (class \<open>Memory\<close>), the optional
  waveform recorder (class \<open>VCDTracer\<close>) and the driver (class \<open>Simulator\<close>) that
  steps the Verilated core \<open>VTop\<close>. The core is external: it is a parameter
  \<open>eval\<close> of the model, a function on the signal record.

  \<open>uint32_t\<close> is \<open>32 word\<close>. \<open>size_t\<close> and \<open>vluint64_t\<close> are 64-bit unsigned;
  they are natural numbers here, and \<open>mod 2 ^ 64\<close> is written wherever the source's
  arithmetic on them could wrap: in the bounds check of \<open>load_binary\<close> and in the
  percentage of the progress notice. The other sums cannot wrap: \<open>main_time\<close> is
  below \<open>max_sim_time\<close> when it is incremented, the address of the signature loop
  is below a 32-bit end, and a word index is at most a quarter of a \<open>size_t\<close>.
\<close>

type_synonym u8 = "8 word"
type_synonym u32 = "32 word"

subsection \<open>Output streams\<close>

text \<open>
  What the harness prints, one constructor per message of the source:
  \<^item> \<open>InvalidWriteAddress a\<close>: \<^verbatim>\<open>Error: Invalid write address 0x<a>\<close> on \<open>std::cerr\<close>;
  \<^item> \<open>HaltConditionMet a\<close>: \<^verbatim>\<open>Halt condition met at address 0x<a>\<close> on \<open>std::cout\<close>;
  \<^item> \<open>SimulationProgress p\<close>: \<^verbatim>\<open>Simulation progress: <p>%\<close> on \<open>std::cerr\<close>;
  \<^item> \<open>CouldNotOpenSignature\<close>: \<^verbatim>\<open>Error: Could not open signature file ...\<close> on \<open>std::cerr\<close>.
\<close>

datatype message =
    InvalidWriteAddress nat
  | HaltConditionMet u32
  | SimulationProgress nat
  | CouldNotOpenSignature

subsection \<open>class Memory\<close>

text \<open>
  \<open>std::vector<uint32_t> memory\<close> is a list of words; its size is fixed by the
  constructor \<open>Memory(size)\<close>, which fills it with zeros.
\<close>

definition Memory :: "nat \<Rightarrow> u32 list" where
  "Memory n = replicate n 0"

text \<open>\<open>uint32_t read(size_t address)\<close>.\<close>

definition Memory_read :: "u32 list \<Rightarrow> nat \<Rightarrow> u32" where
  "Memory_read memory address =
     (let address = address div 4 in
      if address \<ge> length memory then 0
      else memory ! address)"

text \<open>
  \<open>std::array<bool, 4>\<close>: four booleans, read by index. The loop of \<open>write\<close>
  only reads indices 0 to 3.
\<close>

type_synonym strobe_array = "bool \<times> bool \<times> bool \<times> bool"

fun strobe_at :: "strobe_array \<Rightarrow> nat \<Rightarrow> bool" where
  "strobe_at (s0, s1, s2, s3) i =
     (if i = 0 then s0 else if i = 1 then s1 else if i = 2 then s2 else s3)"

text \<open>
  The mask loop of \<open>write\<close>:
  \<^verbatim>\<open>for (i = 0; i < 4; ++i) if (write_strobe[i]) write_mask |= (0xFF << (i * 8));\<close>
\<close>

definition write_mask :: "strobe_array \<Rightarrow> u32" where
  "write_mask write_strobe =
     fold (\<lambda>i mask. if strobe_at write_strobe i then mask OR push_bit (i * 8) 0xFF else mask)
       [0 ..< 4] 0"

text \<open>
  \<open>void write(size_t address, uint32_t value, const std::array<bool, 4> &write_strobe)\<close>.
  The result is the new vector together with what was printed on \<open>std::cerr\<close>.
  The message prints \<open>address * 4\<close> after the division.
\<close>

definition Memory_write ::
  "u32 list \<Rightarrow> nat \<Rightarrow> u32 \<Rightarrow> strobe_array \<Rightarrow> u32 list \<times> message list" where
  "Memory_write memory address val write_strobe =
     (let address = address div 4 in
      if address \<ge> length memory then (memory, [InvalidWriteAddress (address * 4)])
      else
        (let mask = write_mask write_strobe in
         (memory[address := (memory ! address AND NOT mask) OR (val AND mask)], [])))"

text \<open>
  \<open>void load_binary(const std::string &filename, size_t load_address = 0x1000)\<close>.
  The file system is the argument \<open>file\<close>: \<open>None\<close> when the stream cannot be
  opened, otherwise the bytes of the file. The result is the error, if any, and
  the vector as the call leaves it. The two \<open>std::runtime_error\<close>s are
  \<open>CouldNotOpenFile\<close> and \<open>FileTooLarge\<close>.
\<close>

datatype load_error = CouldNotOpenFile | FileTooLarge

text \<open>
  \<open>file.read(reinterpret_cast<char *>(&memory[k]), sizeof(uint32_t))\<close> copies the
  next four bytes of the stream over the word; on the little-endian host the first
  byte is the lowest lane.
\<close>

definition le_word :: "u8 list \<Rightarrow> u32" where
  "le_word bytes = foldr (\<lambda>b w. ucast b OR push_bit 8 w) bytes 0"

text \<open>
  The loop \<^verbatim>\<open>for (size_t i = 0; i < size / 4; ++i)\<close>; \<open>stream\<close> is what is left
  of the file at the read position. \<open>memory[k]\<close> has no bounds test: it is the
  word at the address \<open>data + 4 * k\<close>, computed in 64 bits, which is word
  \<open>k mod 2 ^ 62\<close> of the vector when that index is inside it. A store that lands
  outside the vector leaves the words of the vector as they are.
\<close>

function load_words :: "nat \<Rightarrow> nat \<Rightarrow> nat \<Rightarrow> u8 list \<Rightarrow> u32 list \<Rightarrow> u32 list" where
  "load_words i file_size load_address stream mem =
     (if i < file_size div 4 then
        load_words (i + 1) file_size load_address (drop 4 stream)
          (mem[(i + load_address div 4) mod 2 ^ 62 := le_word (take 4 stream)])
      else mem)"
  by pat_completeness auto
termination
  by (relation "measure (\<lambda>(i, file_size, load_address, stream, mem). file_size div 4 - i)") auto

definition Memory_load_binary ::
  "u32 list \<Rightarrow> u8 list option \<Rightarrow> nat \<Rightarrow> load_error option \<times> u32 list" where
  "Memory_load_binary mem file load_address =
     (case file of
        None \<Rightarrow> (Some CouldNotOpenFile, mem)
      | Some bytes \<Rightarrow>
          (let file_size = length bytes in
           if (load_address + file_size) mod 2 ^ 64 > (length mem * 4) mod 2 ^ 64
           then (Some FileTooLarge, mem)
           else (None, load_words 0 file_size load_address bytes mem)))"

subsection \<open>The Verilated core\<close>

text \<open>
  Modelled from the spec: the header \<open>VTop.h\<close> that declares the signal fields of
  \<open>VTop\<close> is generated by Verilator and is not part of the sources. The fields are
  the signals the harness reads and writes, with the widths the spec's signal
  interface gives them (booleans and 32-bit values). \<open>internal\<close> is the rest of the
  core's state, and \<open>got_finish\<close> is the flag \<open>Verilated::gotFinish()\<close> reads,
  which the core sets when it executes \<open>$finish\<close>.
\<close>

record 'c VTop =
  clock :: bool
  reset :: bool
  io_instruction_valid :: bool
  io_instruction :: u32
  io_memory_bundle_read_data :: u32
  io_instruction_address :: u32
  io_memory_bundle_address :: u32
  io_memory_bundle_write_enable :: bool
  io_memory_bundle_write_data :: u32
  io_memory_bundle_write_strobe_0 :: bool
  io_memory_bundle_write_strobe_1 :: bool
  io_memory_bundle_write_strobe_2 :: bool
  io_memory_bundle_write_strobe_3 :: bool
  internal :: 'c
  got_finish :: bool

subsection \<open>class VCDTracer\<close>

text \<open>
  \<open>tfp\<close> is \<open>None\<close> for the null pointer (tracing never enabled) and otherwise
  holds the snapshots dumped so far, each with its time.
\<close>

type_synonym 'c vcd = "(nat \<times> 'c VTop) list option"

definition VCDTracer_dump :: "'c vcd \<Rightarrow> nat \<Rightarrow> 'c VTop \<Rightarrow> 'c vcd" where
  "VCDTracer_dump tfp time snapshot =
     (case tfp of None \<Rightarrow> None | Some trace \<Rightarrow> Some (trace @ [(time, snapshot)]))"

subsection \<open>class Simulator\<close>

definition RESET_CYCLES :: nat where
  "RESET_CYCLES = 2"

text \<open>
  The fields of \<open>Simulator\<close> that \<open>run\<close> and \<open>generate_signature\<close> use
  (\<open>top_module\<close> is the field \<open>top\<close>), the three locals of \<open>run\<close> that live
  across iterations (\<open>data_memory_read_word\<close>,
  \<open>inst_memory_read_word\<close>, \<open>memory_write_strobe\<close>), and the output:
  \<open>cout\<close>, \<open>cerr\<close> and the signature file (\<open>None\<close> until it is written).
  \<open>signature_begin\<close> and \<open>signature_end\<close> are \<open>unsigned long\<close> fields that only
  ever receive the \<open>uint32_t\<close> result of \<open>parse_number\<close>.
\<close>

record 'c Simulator =
  top_module :: "'c VTop"
  vcd_tracer :: "'c vcd"
  memory :: "u32 list"
  main_time :: nat
  max_sim_time :: nat
  halt_address :: u32
  dump_signature :: bool
  signature_begin :: u32
  signature_end :: u32
  data_memory_read_word :: u32
  inst_memory_read_word :: u32
  memory_write_strobe :: strobe_array
  cout :: "message list"
  cerr :: "message list"
  signature_file :: "string list option"

text \<open>Lines 195 to 203 of \<open>run\<close>: the state before the loop.\<close>

definition run_init :: "('c VTop \<Rightarrow> 'c VTop) \<Rightarrow> 'c Simulator \<Rightarrow> 'c Simulator" where
  "run_init eval s =
     (let s = s\<lparr>top_module := (top_module s)\<lparr>reset := True\<rparr>\<rparr>;
          s = s\<lparr>top_module := (top_module s)\<lparr>clock := False\<rparr>\<rparr>;
          s = s\<lparr>top_module := (top_module s)\<lparr>io_instruction_valid := True\<rparr>\<rparr>;
          s = s\<lparr>top_module := eval (top_module s)\<rparr>;
          s = s\<lparr>vcd_tracer := VCDTracer_dump (vcd_tracer s) (main_time s) (top_module s)\<rparr>;
          s = s\<lparr>data_memory_read_word := 0\<rparr>;
          s = s\<lparr>inst_memory_read_word := 0\<rparr>;
          s = s\<lparr>memory_write_strobe := (False, False, False, False)\<rparr>
      in s)"

text \<open>Lines 207 to 215: the time advances and the core's inputs are set.\<close>

definition drive_inputs :: "'c Simulator \<Rightarrow> 'c Simulator" where
  "drive_inputs s =
     (let s = s\<lparr>main_time := main_time s + 1\<rparr>;
          s = s\<lparr>top_module := (top_module s)\<lparr>clock := \<not> clock (top_module s)\<rparr>\<rparr>;
          s = (if main_time s > RESET_CYCLES
               then s\<lparr>top_module := (top_module s)\<lparr>reset := False\<rparr>\<rparr> else s);
          s = s\<lparr>top_module :=
                 (top_module s)\<lparr>io_memory_bundle_read_data := data_memory_read_word s\<rparr>\<rparr>;
          s = s\<lparr>top_module := (top_module s)\<lparr>io_instruction := inst_memory_read_word s\<rparr>\<rparr>
      in s)"

text \<open>Lines 218 to 229: the two reads, then the write when the core asks for one.\<close>

definition service_bus :: "'c Simulator \<Rightarrow> 'c Simulator" where
  "service_bus s =
     (let s = s\<lparr>data_memory_read_word :=
                 Memory_read (memory s) (unat (io_memory_bundle_address (top_module s)))\<rparr>;
          s = s\<lparr>inst_memory_read_word :=
                 Memory_read (memory s) (unat (io_instruction_address (top_module s)))\<rparr>
      in
      if io_memory_bundle_write_enable (top_module s) then
        (let s = s\<lparr>memory_write_strobe :=
                     (io_memory_bundle_write_strobe_0 (top_module s),
                      io_memory_bundle_write_strobe_1 (top_module s),
                      io_memory_bundle_write_strobe_2 (top_module s),
                      io_memory_bundle_write_strobe_3 (top_module s))\<rparr>;
             (m, msgs) = Memory_write (memory s) (unat (io_memory_bundle_address (top_module s)))
                           (io_memory_bundle_write_data (top_module s)) (memory_write_strobe s)
         in s\<lparr>memory := m, cerr := cerr s @ msgs\<rparr>)
      else s)"

text \<open>
  Lines 239 to 244: the progress notice. \<open>main_time * 100\<close> is a 64-bit product.
\<close>

definition progress_notice :: "nat \<Rightarrow> nat \<Rightarrow> message list" where
  "progress_notice time max_time =
     (if time > 0 \<and> max_time > 10 \<and> time mod (max_time div 10) = 0
      then [SimulationProgress ((time * 100) mod 2 ^ 64 div max_time)]
      else [])"

definition report_progress :: "'c Simulator \<Rightarrow> 'c Simulator" where
  "report_progress s = s\<lparr>cerr := cerr s @ progress_notice (main_time s) (max_sim_time s)\<rparr>"

text \<open>Line 233: the halt condition.\<close>

definition halt_condition :: "'c Simulator \<Rightarrow> bool" where
  "halt_condition s \<longleftrightarrow>
     halt_address s \<noteq> 0 \<and> Memory_read (memory s) (unat (halt_address s)) = 0xBABECAFE"

text \<open>
  The state once the bus has been serviced and the snapshot dumped (lines 207 to
  231), and one iteration of the loop: the boolean is true when the iteration left
  the loop by \<open>break\<close>.
\<close>

definition serviced :: "('c VTop \<Rightarrow> 'c VTop) \<Rightarrow> 'c Simulator \<Rightarrow> 'c Simulator" where
  "serviced eval s =
     (let s = drive_inputs s;
          s = s\<lparr>top_module := eval (top_module s)\<rparr>;
          s = service_bus s;
          s = s\<lparr>vcd_tracer := VCDTracer_dump (vcd_tracer s) (main_time s) (top_module s)\<rparr>
      in s)"

definition loop_body :: "('c VTop \<Rightarrow> 'c VTop) \<Rightarrow> 'c Simulator \<Rightarrow> bool \<times> 'c Simulator" where
  "loop_body eval s =
     (let s = serviced eval s in
      if halt_condition s
      then (True, s\<lparr>cout := cout s @ [HaltConditionMet (halt_address s)]\<rparr>)
      else (False, report_progress s))"

definition loop_condition :: "'c Simulator \<Rightarrow> bool" where
  "loop_condition s \<longleftrightarrow> main_time s < max_sim_time s \<and> \<not> got_finish (top_module s)"

text \<open>
  The loop \<^verbatim>\<open>while (main_time < max_sim_time && !Verilated::gotFinish())\<close>.
  Every iteration advances \<open>main_time\<close> by one, which bounds the iterations.
\<close>

function run_loop :: "('c VTop \<Rightarrow> 'c VTop) \<Rightarrow> 'c Simulator \<Rightarrow> 'c Simulator" where
  "run_loop eval s =
     (if loop_condition s then
        (let (stop, s') = loop_body eval s in
         if stop then s' else run_loop eval s')
      else s)"
  by pat_completeness auto
termination
proof (relation "measure (\<lambda>(eval, s). max_sim_time s - main_time s)")
  show "wf (measure (\<lambda>(eval :: 'c VTop \<Rightarrow> 'c VTop, s). max_sim_time s - main_time s))"
    by simp
next
  fix eval :: "'c VTop \<Rightarrow> 'c VTop" and s x :: "'c Simulator" and p stop
  assume c: "loop_condition s" and p: "p = loop_body eval s" and x: "(stop, x) = p"
    and "\<not> stop"
  have t: "main_time (serviced eval s) = main_time s + 1"
    and m: "max_sim_time (serviced eval s) = max_sim_time s"
    by (simp_all add: serviced_def service_bus_def drive_inputs_def Let_def case_prod_beta)
  from p x have "x = snd (loop_body eval s)"
    by (metis snd_conv)
  then have "main_time x = main_time s + 1" and "max_sim_time x = max_sim_time s"
    by (simp_all add: loop_body_def Let_def report_progress_def t m)
  with c show "((eval, x), (eval, s)) \<in> measure (\<lambda>(eval, s). max_sim_time s - main_time s)"
    by (auto simp add: loop_condition_def)
qed

text \<open>
  \<open>snprintf(data, 9, "%08x", v)\<close>: the hexadecimal digits of \<open>v\<close> in lower case,
  padded with zeros on the left to at least eight characters, and cut to what the
  buffer of nine bytes holds before its terminating zero.
\<close>

definition hex_digit :: "nat \<Rightarrow> char" where
  "hex_digit d = ''0123456789abcdef'' ! d"

fun hex_digits :: "nat \<Rightarrow> string" where
  "hex_digits n =
     (if n < 16 then [hex_digit n] else hex_digits (n div 16) @ [hex_digit (n mod 16)])"

definition snprintf_08x :: "nat \<Rightarrow> u32 \<Rightarrow> string" where
  "snprintf_08x buffer_size v =
     (let digits = hex_digits (unat v);
          padded = replicate (8 - length digits) (CHR ''0'') @ digits
      in take (buffer_size - 1) padded)"

text \<open>
  The loop of \<open>generate_signature\<close>:
  \<^verbatim>\<open>for (size_t addr = signature_begin; addr < signature_end; addr += 4)\<close>,
  with the lines written to the file, in order.
\<close>

function signature_lines :: "u32 list \<Rightarrow> nat \<Rightarrow> nat \<Rightarrow> string list" where
  "signature_lines mem addr sig_end =
     (if addr < sig_end
      then snprintf_08x 9 (Memory_read mem addr) # signature_lines mem (addr + 4) sig_end
      else [])"
  by pat_completeness auto
termination
  by (relation "measure (\<lambda>(mem, addr, sig_end). sig_end - addr)") auto

text \<open>
  \<open>void generate_signature()\<close>. \<open>opens\<close> says whether the output file
  \<open>signature_filename\<close> can be opened for writing.
\<close>

definition generate_signature :: "bool \<Rightarrow> 'c Simulator \<Rightarrow> 'c Simulator" where
  "generate_signature opens s =
     (if \<not> opens then s\<lparr>cerr := cerr s @ [CouldNotOpenSignature]\<rparr>
      else s\<lparr>signature_file :=
               Some (signature_lines (memory s) (unat (signature_begin s)) (unat (signature_end s)))\<rparr>)"

text \<open>\<open>void run()\<close>.\<close>

definition run :: "('c VTop \<Rightarrow> 'c VTop) \<Rightarrow> bool \<Rightarrow> 'c Simulator \<Rightarrow> 'c Simulator" where
  "run eval opens s =
     (let s = run_init eval s;
          s = run_loop eval s
      in if dump_signature s then generate_signature opens s else s)"

text \<open>
  Reading a line of the signature back: the value of a string of hexadecimal
  digits, most significant digit first.
\<close>

definition hex_digit_value :: "char \<Rightarrow> nat" where
  "hex_digit_value c = length (takeWhile (\<lambda>d. d \<noteq> c) ''0123456789abcdef'')"

definition hex_value :: "string \<Rightarrow> nat" where
  "hex_value line = foldl (\<lambda>acc c. 16 * acc + hex_digit_value c) 0 line"

subsection \<open>Notions used to state the properties\<close>

text \<open>Byte lane \<open>i\<close> of a word (lane 0 is bits 0 to 7), and all four strobes set.\<close>

definition byte_lane :: "u32 \<Rightarrow> nat \<Rightarrow> u8" where
  "byte_lane w i = ucast (drop_bit (i * 8) w)"

definition all_strobes :: strobe_array where
  "all_strobes = (True, True, True, True)"

text \<open>
  The state after \<open>n\<close> iterations of the loop body, taking the state each iteration
  leaves whether or not it asked to leave the loop.
\<close>

fun steps :: "('c VTop \<Rightarrow> 'c VTop) \<Rightarrow> nat \<Rightarrow> 'c Simulator \<Rightarrow> 'c Simulator" where
  "steps eval 0 s = s"
| "steps eval (Suc n) s = steps eval n (snd (loop_body eval s))"

text \<open>Two simulator states that agree on everything but the recorder, or but \<open>std::cerr\<close>.\<close>

definition same_but_tracer :: "'c Simulator \<Rightarrow> 'c Simulator \<Rightarrow> bool" where
  "same_but_tracer s t \<longleftrightarrow> s\<lparr>vcd_tracer := None\<rparr> = t\<lparr>vcd_tracer := None\<rparr>"

definition same_but_cerr :: "'c Simulator \<Rightarrow> 'c Simulator \<Rightarrow> bool" where
  "same_but_cerr s t \<longleftrightarrow> s\<lparr>cerr := []\<rparr> = t\<lparr>cerr := []\<rparr>"

subsection \<open>A test bench\<close>

text \<open>
  Two scripted cores and a simulator with eight words of memory and a budget of 20
  steps, on which the theorems below are instantiated. \<open>idle_core\<close> leaves the
  signals as they are and never finishes; \<open>store_core\<close> stores the halt sentinel
  at byte address 16 on every evaluation.
\<close>

definition power_on :: "unit VTop" where
  "power_on =
     \<lparr>clock = False, reset = False, io_instruction_valid = False, io_instruction = 0,
      io_memory_bundle_read_data = 0, io_instruction_address = 0,
      io_memory_bundle_address = 0, io_memory_bundle_write_enable = False,
      io_memory_bundle_write_data = 0, io_memory_bundle_write_strobe_0 = False,
      io_memory_bundle_write_strobe_1 = False, io_memory_bundle_write_strobe_2 = False,
      io_memory_bundle_write_strobe_3 = False, internal = (), got_finish = False\<rparr>"

definition idle_core :: "unit VTop \<Rightarrow> unit VTop" where
  "idle_core t = t\<lparr>got_finish := False\<rparr>"

definition store_core :: "unit VTop \<Rightarrow> unit VTop" where
  "store_core t =
     t\<lparr>io_memory_bundle_address := 16, io_memory_bundle_write_enable := True,
       io_memory_bundle_write_data := 0xBABECAFE, io_memory_bundle_write_strobe_0 := True,
       io_memory_bundle_write_strobe_1 := True, io_memory_bundle_write_strobe_2 := True,
       io_memory_bundle_write_strobe_3 := True\<rparr>"

definition bench :: "unit Simulator" where
  "bench =
     \<lparr>top_module = power_on, vcd_tracer = None, memory = [0, 0, 0, 0, 0, 0, 0, 0],
      main_time = 0, max_sim_time = 20, halt_address = 0, dump_signature = False,
      signature_begin = 0, signature_end = 0, data_memory_read_word = 0,
      inst_memory_read_word = 0, memory_write_strobe = (False, False, False, False),
      cout = [], cerr = [], signature_file = None\<rparr>"

text \<open>The bench with a memory of four words and the signature range 4 to 12.\<close>

definition signature_bench :: "unit Simulator" where
  "signature_bench =
     bench\<lparr>memory := [1, 0xBABECAFE, 255, 0], signature_begin := 4, signature_end := 12\<rparr>"

declare load_words.simps [simp del]
declare run_loop.simps [simp del]
declare hex_digits.simps [simp del]
declare signature_lines.simps [simp del]

section \<open>Memory\<close>

subsection \<open>Masks and lanes\<close>

lemma write_mask_unfold:
  "write_mask (s0, s1, s2, s3) =
     (if s0 then 0xFF else 0) OR (if s1 then 0xFF00 else 0) OR
     (if s2 then 0xFF0000 else 0) OR (if s3 then 0xFF000000 else 0)"
  by (simp add: write_mask_def upt_rec [of _ 4] upt_rec [of _ 3] upt_rec [of _ 2] upt_rec [of _ 1]
      or.assoc)

lemma bit_write_mask:
  "bit (write_mask ws) n \<longleftrightarrow> n < 32 \<and> strobe_at ws (n div 8)"
proof (cases ws)
  case (fields s0 s1 s2 s3)
  have m: "(0xFF :: u32) = mask 8" "(0xFF00 :: u32) = push_bit 8 (mask 8)"
    "(0xFF0000 :: u32) = push_bit 16 (mask 8)" "(0xFF000000 :: u32) = push_bit 24 (mask 8)"
    by (simp_all add: mask_eq_exp_minus_1)
  show ?thesis
    unfolding fields write_mask_unfold m
    by (auto simp add: bit_simps)
qed

lemma byte_lane_merge:
  assumes "i < 4"
  shows "byte_lane ((old AND NOT (write_mask ws)) OR (v AND write_mask ws)) i =
         (if strobe_at ws i then byte_lane v i else byte_lane old i)"
proof -
  have d: "(i * 8 + n) div 8 = i" if "n < 8" for n
    using that by simp
  show ?thesis
    using assms
    by (auto simp add: byte_lane_def bit_simps bit_write_mask d intro!: bit_eqI)
qed

lemma write_mask_all: "write_mask all_strobes = - 1"
  by (simp add: all_strobes_def write_mask_unfold)

text \<open>The four lanes determine the word.\<close>

lemma byte_lanes_eqI:
  assumes "\<And>i. i < 4 \<Longrightarrow> byte_lane a i = byte_lane b i"
  shows "a = b"
proof (rule bit_eqI)
  fix n assume "possible_bit TYPE(u32) n"
  then have n: "n < 32" by (simp add: possible_bit_def)
  then have "n div 8 < 4" by simp
  from assms [OF this]
  have "bit (byte_lane a (n div 8)) (n mod 8) = bit (byte_lane b (n div 8)) (n mod 8)"
    by simp
  then show "bit a n = bit b n"
    using n by (simp add: byte_lane_def bit_simps mult.commute)
qed

subsection \<open>Write, then read\<close>

text \<open>
  Claim C1. For a byte address whose word index is within the capacity, a write
  followed by a read at the same address returns the written value when all four
  strobes are set; for any strobes, and so for every strict subset, each lane
  whose strobe is set holds the byte of the written value and each other lane
  holds the byte it held before the write. No diagnostic is printed.
\<close>

theorem write_then_read:
  assumes "address div 4 < length mem"
  shows "Memory_read (fst (Memory_write mem address val all_strobes)) address = val \<and>
         (\<forall>i<4. byte_lane (Memory_read (fst (Memory_write mem address val ws)) address) i =
            (if strobe_at ws i then byte_lane val i
             else byte_lane (Memory_read mem address) i)) \<and>
         snd (Memory_write mem address val ws) = []"
  using assms
  by (simp add: Memory_read_def Memory_write_def Let_def write_mask_all byte_lane_merge)

theorem write_then_read_witness:
  "Memory_read (fst (Memory_write [1, 0x11223344] 5 0xAABBCCDD all_strobes)) 5 = 0xAABBCCDD \<and>
   byte_lane (Memory_read (fst (Memory_write [1, 0x11223344] 5 0xAABBCCDD
      (True, False, False, True))) 5) 1 = byte_lane (Memory_read [1, 0x11223344] 5) 1 \<and>
   byte_lane (Memory_read (fst (Memory_write [1, 0x11223344] 5 0xAABBCCDD
      (True, False, False, True))) 5) 3 = byte_lane 0xAABBCCDD 3"
  using write_then_read [of 5 "[1, 0x11223344]" "0xAABBCCDD" "(True, False, False, True)"]
  by simp

subsection \<open>Accesses outside the capacity\<close>

text \<open>
  Claim C5. For a byte address whose word index is outside the capacity, \<open>read\<close>
  returns 0 (it has no error result), and \<open>write\<close> returns the vector as it was
  and prints one diagnostic.
\<close>

theorem out_of_range_access:
  assumes "length mem \<le> address div 4"
  shows "Memory_read mem address = 0 \<and>
         fst (Memory_write mem address val ws) = mem \<and>
         snd (Memory_write mem address val ws) = [InvalidWriteAddress (address div 4 * 4)]"
  using assms by (simp add: Memory_read_def Memory_write_def)

theorem out_of_range_access_witness:
  "Memory_read [1, 2] 9 = 0 \<and>
   fst (Memory_write [1, 2] 9 7 all_strobes) = [1, 2] \<and>
   snd (Memory_write [1, 2] 9 7 all_strobes) = [InvalidWriteAddress 8]"
  using out_of_range_access [of "[1, 2]" 9 7 all_strobes]
  by simp

subsection \<open>Loading an image\<close>

lemma load_words_spec:
  assumes "load_address div 4 + file_size div 4 \<le> length mem" and "length mem * 4 < 2 ^ 64"
  shows "length (load_words i file_size load_address stream mem) = length mem \<and>
         (\<forall>j < length mem. load_words i file_size load_address stream mem ! j =
            (if load_address div 4 + i \<le> j \<and> j < load_address div 4 + file_size div 4
             then le_word (take 4 (drop (4 * (j - (load_address div 4 + i))) stream))
             else mem ! j))"
  using assms
proof (induction i file_size load_address stream mem rule: load_words.induct)
  case (1 i file_size load_address stream mem)
  show ?case
  proof (cases "i < file_size div 4")
    case False
    then show ?thesis by (auto simp add: load_words.simps [of i])
  next
    case True
    with "1.prems" have r: "i + load_address div 4 < length mem" by simp
    with "1.prems" have "i + load_address div 4 < 2 ^ 62" by simp
    then have k: "(i + load_address div 4) mod 2 ^ 62 = i + load_address div 4" by simp
    let ?mem = "mem[i + load_address div 4 := le_word (take 4 stream)]"
    have eq: "load_words i file_size load_address stream mem =
        load_words (i + 1) file_size load_address (drop 4 stream) ?mem"
      by (subst load_words.simps) (simp only: True if_True k)
    have ih: "length (load_words (i + 1) file_size load_address (drop 4 stream) ?mem) = length ?mem \<and>
         (\<forall>j < length ?mem. load_words (i + 1) file_size load_address (drop 4 stream) ?mem ! j =
            (if load_address div 4 + (i + 1) \<le> j \<and> j < load_address div 4 + file_size div 4
             then le_word (take 4 (drop (4 * (j - (load_address div 4 + (i + 1)))) (drop 4 stream)))
             else ?mem ! j))"
      using "1.IH" [OF True, unfolded k] "1.prems" by simp
    have d: "drop (4 * (j - (load_address div 4 + (i + 1)))) (drop 4 stream) =
             drop (4 * (j - (load_address div 4 + i))) stream"
      if "load_address div 4 + (i + 1) \<le> j" for j
    proof -
      have "4 * (j - (load_address div 4 + (i + 1))) + 4 = 4 * (j - (load_address div 4 + i))"
        using that by simp
      then show ?thesis by (simp add: add.commute)
    qed
    show ?thesis
      unfolding eq using ih r d True
      by (auto simp add: nth_list_update add.commute)
  qed
qed

text \<open>The word read from four bytes has them as its lanes, first byte lowest.\<close>

lemma byte_lane_le_word:
  "byte_lane (le_word [b0, b1, b2, b3]) 0 = b0 \<and> byte_lane (le_word [b0, b1, b2, b3]) 1 = b1 \<and>
   byte_lane (le_word [b0, b1, b2, b3]) 2 = b2 \<and> byte_lane (le_word [b0, b1, b2, b3]) 3 = b3"
proof -
  have h: "\<not> bit b (8 + n)" "\<not> bit b (16 + n)" "\<not> bit b (24 + n)" for b :: u8 and n
    using bit_imp_le_length [of b "8 + n"] bit_imp_le_length [of b "16 + n"]
      bit_imp_le_length [of b "24 + n"] by auto
  show ?thesis
    by (auto simp add: le_word_def byte_lane_def bit_simps h intro!: bit_eqI)
qed

text \<open>
  Where the sum of the bounds check fits the 64 bits of \<open>size_t\<close>, \<open>load_binary\<close>
  fails exactly when the file cannot be opened or when \<open>load_address\<close> plus the
  file size exceeds four times the number of words, and then the vector is as it
  was. Otherwise it succeeds, the \<open>S div 4\<close> words from index
  \<open>load_address div 4\<close> on (all inside the vector) hold the successive groups of
  four bytes of the file, and every other word, the one a partial last group would
  go to included, is as it was.
\<close>

lemma load_binary_in_range:
  assumes "load_address + length bytes < 2 ^ 64" and "length mem * 4 < 2 ^ 64"
  shows "Memory_load_binary mem None load_address = (Some CouldNotOpenFile, mem) \<and>
    (if load_address + length bytes > length mem * 4
     then Memory_load_binary mem (Some bytes) load_address = (Some FileTooLarge, mem)
     else fst (Memory_load_binary mem (Some bytes) load_address) = None \<and>
          length (snd (Memory_load_binary mem (Some bytes) load_address)) = length mem \<and>
          load_address div 4 + length bytes div 4 \<le> length mem \<and>
          (\<forall>j < length mem. snd (Memory_load_binary mem (Some bytes) load_address) ! j =
             (if load_address div 4 \<le> j \<and> j < load_address div 4 + length bytes div 4
              then le_word (take 4 (drop (4 * (j - load_address div 4)) bytes))
              else mem ! j)))"
proof (cases "load_address + length bytes > length mem * 4")
  case True
  with assms show ?thesis
    by (simp add: Memory_load_binary_def)
next
  case False
  then have r: "load_address div 4 + length bytes div 4 \<le> length mem"
    by arith
  have e: "Memory_load_binary mem (Some bytes) load_address =
           (None, load_words 0 (length bytes) load_address bytes mem)"
    using False assms by (simp add: Memory_load_binary_def)
  from load_words_spec [OF r assms(2), of 0 bytes] False r show ?thesis
    unfolding e by (simp add: Memory_load_binary_def)
qed

lemma load_binary_in_range_example:
  "Memory_load_binary (Memory 4) (Some [1, 2, 3, 4, 5, 6]) 4 = (None, [0, 0x04030201, 0, 0]) \<and>
   Memory_load_binary (Memory 4) (Some [1, 2, 3, 4, 5, 6]) 12 = (Some FileTooLarge, Memory 4)"
proof -
  have f: "Memory 4 = [0, 0, 0, 0]"
    by (simp add: Memory_def numeral_eq_Suc)
  have "load_words 0 (length [1, 2, 3, 4, 5, 6 :: u8]) 4 [1, 2, 3, 4, 5, 6] [0, 0, 0, 0] =
        [0, 0x04030201, 0, 0]"
    by (simp add: load_words.simps le_word_def)
  then show ?thesis
    by (simp add: Memory_load_binary_def f)
qed



section \<open>Driver\<close>

subsection \<open>One iteration, field by field\<close>

lemma drive_inputs_explicit:
  "drive_inputs s =
     s\<lparr>top_module := (top_module s)
          \<lparr>clock := \<not> clock (top_module s),
           reset := (if main_time s + 1 > RESET_CYCLES then False else reset (top_module s)),
           io_instruction := inst_memory_read_word s,
           io_memory_bundle_read_data := data_memory_read_word s\<rparr>,
       main_time := main_time s + 1\<rparr>"
  by (simp add: drive_inputs_def Let_def)

lemma serviced_explicit:
  "serviced eval s =
     (let t = eval (top_module (drive_inputs s));
          w = Memory_write (memory s) (unat (io_memory_bundle_address t))
                (io_memory_bundle_write_data t)
                (io_memory_bundle_write_strobe_0 t, io_memory_bundle_write_strobe_1 t,
                 io_memory_bundle_write_strobe_2 t, io_memory_bundle_write_strobe_3 t)
      in s\<lparr>top_module := t,
            vcd_tracer := VCDTracer_dump (vcd_tracer s) (main_time s + 1) t,
            memory := (if io_memory_bundle_write_enable t then fst w else memory s),
            main_time := main_time s + 1,
            data_memory_read_word := Memory_read (memory s) (unat (io_memory_bundle_address t)),
            inst_memory_read_word := Memory_read (memory s) (unat (io_instruction_address t)),
            memory_write_strobe :=
              (if io_memory_bundle_write_enable t
               then (io_memory_bundle_write_strobe_0 t, io_memory_bundle_write_strobe_1 t,
                     io_memory_bundle_write_strobe_2 t, io_memory_bundle_write_strobe_3 t)
               else memory_write_strobe s),
            cerr := (if io_memory_bundle_write_enable t then cerr s @ snd w else cerr s)\<rparr>)"
  by (simp add: serviced_def service_bus_def Let_def case_prod_beta drive_inputs_explicit)

lemma run_loop_unfold:
  "run_loop eval s =
     (if loop_condition s then
        (if fst (loop_body eval s) then snd (loop_body eval s)
         else run_loop eval (snd (loop_body eval s)))
      else s)"
  by (simp add: run_loop.simps [of eval s] case_prod_beta)

lemma loop_body_explicit:
  "loop_body eval s =
     (halt_condition (serviced eval s),
      if halt_condition (serviced eval s)
      then (serviced eval s)\<lparr>cout := cout s @ [HaltConditionMet (halt_address s)]\<rparr>
      else (serviced eval s)\<lparr>cerr := cerr (serviced eval s) @
              progress_notice (main_time s + 1) (max_sim_time s)\<rparr>)"
  by (simp add: loop_body_def Let_def report_progress_def serviced_explicit)

lemma serviced_fields:
  "main_time (serviced eval s) = main_time s + 1"
  "max_sim_time (serviced eval s) = max_sim_time s"
  "halt_address (serviced eval s) = halt_address s"
  "cout (serviced eval s) = cout s"
  "top_module (serviced eval s) = eval (top_module (drive_inputs s))"
  "length (memory (serviced eval s)) = length (memory s)"
  by (simp_all add: serviced_explicit Let_def Memory_write_def)

lemma loop_body_fields:
  "main_time (snd (loop_body eval s)) = main_time s + 1"
  "max_sim_time (snd (loop_body eval s)) = max_sim_time s"
  "halt_address (snd (loop_body eval s)) = halt_address s"
  "top_module (snd (loop_body eval s)) = eval (top_module (drive_inputs s))"
  "length (memory (snd (loop_body eval s))) = length (memory s)"
  by (simp_all add: loop_body_explicit serviced_fields)

lemma run_loop_induct:
  assumes "\<And>s. (loop_condition s \<Longrightarrow> \<not> fst (loop_body eval s) \<Longrightarrow> P (snd (loop_body eval s))) \<Longrightarrow> P s"
  shows "P s"
proof (induction "max_sim_time s - main_time s" arbitrary: s rule: less_induct)
  case less
  show ?case
  proof (rule assms)
    assume c: "loop_condition s"
    then have "max_sim_time (snd (loop_body eval s)) - main_time (snd (loop_body eval s))
        < max_sim_time s - main_time s"
      by (auto simp add: loop_body_fields loop_condition_def)
    then show "P (snd (loop_body eval s))"
      by (rule less)
  qed
qed

lemma run_loop_related:
  assumes step: "\<And>s t. R s t \<Longrightarrow>
      loop_condition s = loop_condition t \<and>
      fst (loop_body eval s) = fst (loop_body eval t) \<and>
      R (snd (loop_body eval s)) (snd (loop_body eval t))"
    and "R s t"
  shows "R (run_loop eval s) (run_loop eval t)"
  using \<open>R s t\<close>
proof (induction s arbitrary: t rule: run_loop_induct [where eval = eval])
  case (1 s)
  note st = step [OF \<open>R s t\<close>]
  show ?case
  proof (cases "loop_condition s")
    case False
    with st 1 show ?thesis
      by (simp add: run_loop_unfold [of eval s] run_loop_unfold [of eval t])
  next
    case True
    show ?thesis
    proof (cases "fst (loop_body eval s)")
      case stop: True
      with True st show ?thesis
        by (simp add: run_loop_unfold [of eval s] run_loop_unfold [of eval t])
    next
      case go: False
      from "1.IH" [OF True go] st
      have "R (run_loop eval (snd (loop_body eval s))) (run_loop eval (snd (loop_body eval t)))"
        by blast
      with True go st show ?thesis
        by (simp add: run_loop_unfold [of eval s] run_loop_unfold [of eval t])
    qed
  qed
qed

lemma run_init_fields:
  "main_time (run_init eval s) = main_time s"
  "max_sim_time (run_init eval s) = max_sim_time s"
  "halt_address (run_init eval s) = halt_address s"
  "dump_signature (run_init eval s) = dump_signature s"
  "data_memory_read_word (run_init eval s) = 0"
  "inst_memory_read_word (run_init eval s) = 0"
  "memory (run_init eval s) = memory s"
  "top_module (run_init eval s) =
     eval ((top_module s)\<lparr>reset := True, clock := False, io_instruction_valid := True\<rparr>)"
  by (simp_all add: run_init_def Let_def)

subsection \<open>Bus timing\<close>

text \<open>
  Claim C2. In every iteration the core is evaluated with the two read words the
  loop holds on entry; the words an iteration leaves for the next one are the
  results of \<open>read\<close>, on the memory the iteration started with, at the two addresses
  the core put out in this iteration; and before the first iteration both held
  words are 0, so the first iteration presents 0 for both.
\<close>

theorem bus_response_one_step_delayed:
  "io_memory_bundle_read_data (top_module (drive_inputs s)) = data_memory_read_word s \<and>
   io_instruction (top_module (drive_inputs s)) = inst_memory_read_word s \<and>
   data_memory_read_word (snd (loop_body eval s)) =
     Memory_read (memory s) (unat (io_memory_bundle_address (top_module (snd (loop_body eval s))))) \<and>
   inst_memory_read_word (snd (loop_body eval s)) =
     Memory_read (memory s) (unat (io_instruction_address (top_module (snd (loop_body eval s))))) \<and>
   top_module (snd (loop_body eval s)) = eval (top_module (drive_inputs s)) \<and>
   data_memory_read_word (run_init eval s) = 0 \<and>
   inst_memory_read_word (run_init eval s) = 0 \<and>
   io_memory_bundle_read_data (top_module (drive_inputs (run_init eval s))) = 0 \<and>
   io_instruction (top_module (drive_inputs (run_init eval s))) = 0"
  by (simp add: drive_inputs_explicit loop_body_explicit serviced_explicit Let_def run_init_fields)

subsection \<open>Halt detection\<close>

lemma run_loop_halts:
  assumes "loop_condition s" and "halt_condition (serviced eval s)"
  shows "run_loop eval s = (serviced eval s)\<lparr>cout := cout s @ [HaltConditionMet (halt_address s)]\<rparr>"
  using assms by (simp add: run_loop_unfold [of eval s] loop_body_explicit)

text \<open>
  Claim C3. When the loop is entered for a step (so for any maximum time above
  the current time), the halt address is not 0, and the word at the halt address
  is \<open>0xBABECAFE\<close> once the bus of that step has been serviced, the loop ends with
  that step: its result is the serviced state with the halt message printed, and
  the time is that of the step.
\<close>

theorem halt_sentinel_stops_loop:
  assumes "loop_condition s"
    and "halt_address s \<noteq> 0"
    and "Memory_read (memory (serviced eval s)) (unat (halt_address s)) = 0xBABECAFE"
  shows "run_loop eval s =
           (serviced eval s)\<lparr>cout := cout s @ [HaltConditionMet (halt_address s)]\<rparr> \<and>
         main_time (run_loop eval s) = main_time s + 1"
proof -
  from assms(2,3) have "halt_condition (serviced eval s)"
    by (simp add: halt_condition_def serviced_fields)
  from run_loop_halts [OF assms(1) this] show ?thesis
    by (simp add: serviced_fields)
qed

theorem halt_sentinel_stops_loop_witness:
  "main_time (run_loop store_core (bench\<lparr>halt_address := 16\<rparr>)) = 1 \<and>
   cout (run_loop store_core (bench\<lparr>halt_address := 16\<rparr>)) = [HaltConditionMet 16]"
proof -
  let ?s = "bench\<lparr>halt_address := 16\<rparr>"
  have c: "loop_condition ?s"
    by (simp add: loop_condition_def bench_def power_on_def)
  have h: "halt_address ?s \<noteq> 0"
    by simp
  have m: "Memory_read (memory (serviced store_core ?s)) (unat (halt_address ?s)) = 0xBABECAFE"
    by (simp add: serviced_explicit Let_def store_core_def bench_def Memory_write_def
        Memory_read_def write_mask_unfold)
  from halt_sentinel_stops_loop [OF c h m] show ?thesis
    by (simp add: bench_def serviced_fields)
qed

subsection \<open>Time budget\<close>

lemma run_loop_time_budget:
  assumes "halt_address s = 0" and "\<forall>t. \<not> got_finish (eval t)" and "\<not> got_finish (top_module s)"
    and "main_time s \<le> max_sim_time s"
  shows "run_loop eval s = steps eval (max_sim_time s - main_time s) s \<and>
         main_time (run_loop eval s) = max_sim_time s"
  using assms(1,3,4)
proof (induction s rule: run_loop_induct [where eval = eval])
  case (1 s)
  show ?case
  proof (cases "main_time s < max_sim_time s")
    case False
    with 1 show ?thesis
      by (simp add: run_loop_unfold [of eval s] loop_condition_def)
  next
    case True
    with 1 have c: "loop_condition s" by (simp add: loop_condition_def)
    from 1 have go: "\<not> fst (loop_body eval s)"
      by (simp add: loop_body_explicit halt_condition_def serviced_fields)
    let ?s = "snd (loop_body eval s)"
    have h: "run_loop eval ?s = steps eval (max_sim_time ?s - main_time ?s) ?s \<and>
          main_time (run_loop eval ?s) = max_sim_time ?s"
      using True "1.prems" assms(2) by (intro "1.IH" [OF c go]) (simp_all add: loop_body_fields)
    have ih: "run_loop eval ?s = steps eval (max_sim_time s - Suc (main_time s)) ?s"
      using h [THEN conjunct1] by (simp add: loop_body_fields)
    have t: "main_time (run_loop eval ?s) = max_sim_time s"
      using h [THEN conjunct2] by (simp add: loop_body_fields)
    have n: "max_sim_time s - main_time s = Suc (max_sim_time s - Suc (main_time s))"
      using True by simp
    have u: "run_loop eval s = run_loop eval ?s"
      using c go by (simp add: run_loop_unfold [of eval s])
    have "run_loop eval s = steps eval (max_sim_time s - main_time s) s"
      unfolding u n steps.simps by (rule ih)
    moreover have "main_time (run_loop eval s) = max_sim_time s"
      unfolding u by (rule t)
    ultimately show ?thesis ..
  qed
qed

text \<open>
  Claim C4. \<open>run_loop\<close> is a total function, so the loop always ends. With the
  halt address 0 and a core whose evaluation never sets the finish flag, the loop
  started at time 0 runs the loop body \<open>max_sim_time\<close> times, none of them leaving
  by \<open>break\<close>, and ends with \<open>main_time = max_sim_time\<close>.
\<close>

theorem time_budget_termination:
  assumes "main_time s = 0" and "halt_address s = 0" and "\<forall>t. \<not> got_finish (eval t)"
  shows "run_loop eval (run_init eval s) = steps eval (max_sim_time s) (run_init eval s) \<and>
         main_time (run_loop eval (run_init eval s)) = max_sim_time s"
proof -
  have h: "run_loop eval (run_init eval s) =
          steps eval (max_sim_time (run_init eval s) - main_time (run_init eval s)) (run_init eval s) \<and>
        main_time (run_loop eval (run_init eval s)) = max_sim_time (run_init eval s)"
    using assms by (intro run_loop_time_budget) (simp_all add: run_init_fields)
  have "run_loop eval (run_init eval s) = steps eval (max_sim_time s) (run_init eval s)"
    using h [THEN conjunct1] assms(1) by (simp add: run_init_fields)
  moreover have "main_time (run_loop eval (run_init eval s)) = max_sim_time s"
    using h [THEN conjunct2] by (simp add: run_init_fields)
  ultimately show ?thesis ..
qed

theorem time_budget_termination_witness:
  "run_loop idle_core (run_init idle_core bench) = steps idle_core 20 (run_init idle_core bench) \<and>
   main_time (run_loop idle_core (run_init idle_core bench)) = 20"
proof -
  have h: "main_time bench = 0" "halt_address bench = 0" "\<forall>t. \<not> got_finish (idle_core t)"
    by (simp_all add: bench_def idle_core_def)
  have m: "max_sim_time bench = 20"
    by (simp add: bench_def)
  show ?thesis
    by (rule time_budget_termination [OF h, unfolded m])
qed

subsection \<open>A halt address outside the memory\<close>

lemma steps_fields:
  "length (memory (steps eval n s)) = length (memory s)"
  "halt_address (steps eval n s) = halt_address s"
  by (induction n arbitrary: s) (simp_all add: loop_body_fields)

lemma out_of_range_never_halts:
  "length (memory s) \<le> unat (halt_address s) div 4 \<Longrightarrow> \<not> fst (loop_body eval s)"
  by (simp add: loop_body_explicit halt_condition_def serviced_fields Memory_read_def)

text \<open>
  Claim C10. When the word index of the halt address is outside the memory, then
  after any number of iterations the read at the halt address gives 0 and the next
  iteration does not leave the loop by \<open>break\<close>: the loop ends with its condition
  false (the time budget is used up or the core has finished) and prints no halt
  message.
\<close>

theorem halt_address_out_of_range:
  assumes "length (memory s) \<le> unat (halt_address s) div 4"
  shows "(\<forall>n. Memory_read (memory (steps eval n s)) (unat (halt_address s)) = 0 \<and>
              \<not> fst (loop_body eval (steps eval n s))) \<and>
         \<not> loop_condition (run_loop eval s) \<and>
         cout (run_loop eval s) = cout s"
proof -
  have "\<not> loop_condition (run_loop eval s) \<and> cout (run_loop eval s) = cout s"
    using assms
  proof (induction s rule: run_loop_induct [where eval = eval])
    case (1 s)
    have go: "\<not> fst (loop_body eval s)"
      using "1.prems" by (rule out_of_range_never_halts)
    show ?case
    proof (cases "loop_condition s")
      case False
      then show ?thesis
        by (simp add: run_loop_unfold [of eval s])
    next
      case True
      let ?s = "snd (loop_body eval s)"
      have "\<not> loop_condition (run_loop eval ?s) \<and> cout (run_loop eval ?s) = cout ?s"
        using "1.prems" by (intro "1.IH" [OF True go]) (simp add: loop_body_fields)
      moreover have "cout ?s = cout s"
        using go by (simp add: loop_body_explicit serviced_fields)
      ultimately show ?thesis
        using True go by (simp add: run_loop_unfold [of eval s])
    qed
  qed
  moreover
  have "Memory_read (memory (steps eval n s)) (unat (halt_address s)) = 0 \<and>
        \<not> fst (loop_body eval (steps eval n s))" for n
  proof -
    have "length (memory (steps eval n s)) \<le> unat (halt_address (steps eval n s)) div 4"
      using assms by (simp add: steps_fields)
    from this out_of_range_never_halts [OF this] show ?thesis
      by (simp add: Memory_read_def steps_fields)
  qed
  ultimately show ?thesis
    by blast
qed

theorem halt_address_out_of_range_witness:
  "\<not> fst (loop_body store_core (steps store_core 3 (bench\<lparr>halt_address := 0x1000\<rparr>))) \<and>
   \<not> loop_condition (run_loop store_core (bench\<lparr>halt_address := 0x1000\<rparr>)) \<and>
   cout (run_loop store_core (bench\<lparr>halt_address := 0x1000\<rparr>)) = []"
proof -
  have h: "length (memory (bench\<lparr>halt_address := 0x1000\<rparr>))
      \<le> unat (halt_address (bench\<lparr>halt_address := 0x1000\<rparr>)) div 4"
    by (simp add: bench_def)
  have c: "cout (bench\<lparr>halt_address := 0x1000\<rparr>) = []"
    by (simp add: bench_def)
  from halt_address_out_of_range [OF h, of store_core, unfolded c] show ?thesis
    by blast
qed

subsection \<open>Tracing\<close>

lemma same_but_tracerD: "same_but_tracer s t \<Longrightarrow> t = s\<lparr>vcd_tracer := vcd_tracer t\<rparr>"
  unfolding same_but_tracer_def by (cases s, cases t) simp

lemma serviced_tracer:
  "same_but_tracer (serviced eval s) (serviced eval (s\<lparr>vcd_tracer := v\<rparr>))"
  by (simp add: same_but_tracer_def serviced_explicit Let_def drive_inputs_explicit)

lemma loop_body_tracer:
  "fst (loop_body eval (s\<lparr>vcd_tracer := v\<rparr>)) = fst (loop_body eval s) \<and>
   same_but_tracer (snd (loop_body eval s)) (snd (loop_body eval (s\<lparr>vcd_tracer := v\<rparr>)))"
  by (simp add: same_but_tracer_def loop_body_explicit halt_condition_def
      serviced_explicit Let_def drive_inputs_explicit)

lemma run_loop_tracer:
  assumes "same_but_tracer s t"
  shows "same_but_tracer (run_loop eval s) (run_loop eval t)"
proof (rule run_loop_related [where R = same_but_tracer, OF _ assms])
  fix s t :: "'a Simulator"
  assume r: "same_but_tracer s t"
  then have t: "t = s\<lparr>vcd_tracer := vcd_tracer t\<rparr>" by (rule same_but_tracerD)
  have "loop_condition s = loop_condition t"
    by (subst t) (simp add: loop_condition_def)
  moreover have "fst (loop_body eval s) = fst (loop_body eval t) \<and>
      same_but_tracer (snd (loop_body eval s)) (snd (loop_body eval t))"
    by (subst (1 2) t) (simp add: loop_body_tracer)
  ultimately show "loop_condition s = loop_condition t \<and>
      fst (loop_body eval s) = fst (loop_body eval t) \<and>
      same_but_tracer (snd (loop_body eval s)) (snd (loop_body eval t))"
    by simp
qed

lemma steps_tracer:
  "same_but_tracer s t \<Longrightarrow> same_but_tracer (steps eval n s) (steps eval n t)"
proof (induction n arbitrary: s t)
  case 0
  then show ?case by simp
next
  case (Suc n)
  from Suc.prems have t: "t = s\<lparr>vcd_tracer := vcd_tracer t\<rparr>" by (rule same_but_tracerD)
  have "same_but_tracer (snd (loop_body eval s)) (snd (loop_body eval t))"
    by (subst t) (simp add: loop_body_tracer)
  then show ?case
    by (simp add: Suc.IH)
qed

lemma run_init_tracer:
  "same_but_tracer (run_init eval (s\<lparr>vcd_tracer := v\<rparr>)) (run_init eval (s\<lparr>vcd_tracer := w\<rparr>))"
  by (simp add: same_but_tracer_def run_init_def Let_def)

lemma generate_signature_tracer:
  "same_but_tracer s t \<Longrightarrow> same_but_tracer (generate_signature opens s) (generate_signature opens t)"
proof -
  assume "same_but_tracer s t"
  then have t: "t = s\<lparr>vcd_tracer := vcd_tracer t\<rparr>" by (rule same_but_tracerD)
  show ?thesis
    by (subst t) (simp add: same_but_tracer_def generate_signature_def)
qed

lemma same_but_tracer_fields:
  assumes "same_but_tracer s t"
  shows "memory t = memory s" and "dump_signature t = dump_signature s"
    and "top_module t = top_module s" and "cerr t = cerr s" and "cout t = cout s"
    and "main_time t = main_time s" and "signature_file t = signature_file s"
proof -
  from assms have t: "t = s\<lparr>vcd_tracer := vcd_tracer t\<rparr>" by (rule same_but_tracerD)
  show "memory t = memory s" and "dump_signature t = dump_signature s"
    and "top_module t = top_module s" and "cerr t = cerr s" and "cout t = cout s"
    and "main_time t = main_time s" and "signature_file t = signature_file s"
    by (subst t, simp)+
qed

lemma run_tracer:
  "same_but_tracer (run eval opens (s\<lparr>vcd_tracer := v\<rparr>)) (run eval opens (s\<lparr>vcd_tracer := w\<rparr>))"
proof -
  let ?a = "run_loop eval (run_init eval (s\<lparr>vcd_tracer := v\<rparr>))"
  let ?b = "run_loop eval (run_init eval (s\<lparr>vcd_tracer := w\<rparr>))"
  have r: "same_but_tracer ?a ?b"
    by (intro run_loop_tracer run_init_tracer)
  then have d: "dump_signature ?b = dump_signature ?a"
    by (rule same_but_tracer_fields)
  show ?thesis
    using r generate_signature_tracer [OF r, of opens]
    by (simp add: run_def Let_def d)
qed

text \<open>
  Claim C8. For the same core and the same initial state, the run with a recorder
  enabled and the run without one end in states that differ at most in the
  recorder: the memory is the same, and after every number of iterations the
  memory and the signals of the core, which determine the bus operations, are the
  same.
\<close>

theorem tracing_independence:
  "same_but_tracer (run eval opens (s\<lparr>vcd_tracer := None\<rparr>))
     (run eval opens (s\<lparr>vcd_tracer := Some trace\<rparr>)) \<and>
   memory (run eval opens (s\<lparr>vcd_tracer := Some trace\<rparr>)) =
     memory (run eval opens (s\<lparr>vcd_tracer := None\<rparr>)) \<and>
   (\<forall>n. same_but_tracer (steps eval n (run_init eval (s\<lparr>vcd_tracer := None\<rparr>)))
          (steps eval n (run_init eval (s\<lparr>vcd_tracer := Some trace\<rparr>))) \<and>
        memory (steps eval n (run_init eval (s\<lparr>vcd_tracer := Some trace\<rparr>))) =
          memory (steps eval n (run_init eval (s\<lparr>vcd_tracer := None\<rparr>))) \<and>
        top_module (steps eval n (run_init eval (s\<lparr>vcd_tracer := Some trace\<rparr>))) =
          top_module (steps eval n (run_init eval (s\<lparr>vcd_tracer := None\<rparr>))))"
proof -
  have r: "same_but_tracer (run eval opens (s\<lparr>vcd_tracer := None\<rparr>))
     (run eval opens (s\<lparr>vcd_tracer := Some trace\<rparr>))"
    by (rule run_tracer)
  have n: "same_but_tracer (steps eval n (run_init eval (s\<lparr>vcd_tracer := None\<rparr>)))
          (steps eval n (run_init eval (s\<lparr>vcd_tracer := Some trace\<rparr>)))" for n
    by (intro steps_tracer run_init_tracer)
  show ?thesis
    using r n same_but_tracer_fields(1) [OF r] same_but_tracer_fields(1) [OF n]
      same_but_tracer_fields(3) [OF n]
    by blast
qed

subsection \<open>Progress notices\<close>

lemma same_but_cerrD: "same_but_cerr s t \<Longrightarrow> t = s\<lparr>cerr := cerr t\<rparr>"
  unfolding same_but_cerr_def by (cases s, cases t) simp

lemma loop_body_cerr:
  "fst (loop_body eval (s\<lparr>cerr := c\<rparr>)) = fst (loop_body eval s) \<and>
   same_but_cerr (snd (loop_body eval s)) (snd (loop_body eval (s\<lparr>cerr := c\<rparr>)))"
  by (simp add: same_but_cerr_def loop_body_explicit halt_condition_def
      serviced_explicit Let_def drive_inputs_explicit)

lemma run_loop_cerr:
  assumes "same_but_cerr s t"
  shows "same_but_cerr (run_loop eval s) (run_loop eval t)"
proof (rule run_loop_related [where R = same_but_cerr, OF _ assms])
  fix s t :: "'a Simulator"
  assume r: "same_but_cerr s t"
  then have t: "t = s\<lparr>cerr := cerr t\<rparr>" by (rule same_but_cerrD)
  have "loop_condition s = loop_condition t"
    by (subst t) (simp add: loop_condition_def)
  moreover have "fst (loop_body eval s) = fst (loop_body eval t) \<and>
      same_but_cerr (snd (loop_body eval s)) (snd (loop_body eval t))"
    by (subst (1 2) t) (simp add: loop_body_cerr)
  ultimately show "loop_condition s = loop_condition t \<and>
      fst (loop_body eval s) = fst (loop_body eval t) \<and>
      same_but_cerr (snd (loop_body eval s)) (snd (loop_body eval t))"
    by simp
qed

lemma progress_notice_emitted:
  "progress_notice t m \<noteq> [] \<longleftrightarrow> 0 < t \<and> 10 < m \<and> (m div 10) dvd t"
  by (auto simp add: progress_notice_def mod_eq_0_iff_dvd)

lemma progress_notice_tenths:
  assumes "10 dvd m" and "10 < m" and "0 < t" and "t * 100 < 2 ^ 64"
  shows "progress_notice t m =
           (if m dvd 10 * t then [SimulationProgress (10 * (10 * t div m))] else [])"
proof -
  from assms(1) obtain q where m: "m = 10 * q" ..
  with assms(2) have q: "0 < q" by simp
  have d: "q dvd t \<longleftrightarrow> m dvd 10 * t"
    using q by (simp add: m)
  have p: "t * 100 div m = 10 * (10 * t div m)" if "q dvd t"
  proof -
    from that obtain k where k: "t = q * k" ..
    have "t * 100 div m = (10 * q) * (10 * k) div (10 * q)"
      by (simp add: m k)
    also have "\<dots> = 10 * k"
      using q by (simp only: nonzero_mult_div_cancel_left)
    finally have a: "t * 100 div m = 10 * k" .
    have "10 * t div m = (10 * q) * k div (10 * q)"
      by (simp add: m k)
    also have "\<dots> = k"
      using q by (simp only: nonzero_mult_div_cancel_left)
    finally show ?thesis using a by simp
  qed
  show ?thesis
  proof (cases "q dvd t")
    case True
    then have "m dvd 10 * t" using d by simp
    with True assms(2,3,4) p [OF True] show ?thesis
      by (simp add: progress_notice_def m mod_eq_0_iff_dvd)
  next
    case False
    then have "\<not> m dvd 10 * t" using d by simp
    with False show ?thesis
      by (simp add: progress_notice_def m mod_eq_0_iff_dvd)
  qed
qed

lemma report_progress_cerr: "same_but_cerr (report_progress s) s"
  by (simp add: same_but_cerr_def report_progress_def)

lemma loop_body_messages:
  "cerr (snd (loop_body eval s)) =
     cerr (serviced eval s) @
     (if fst (loop_body eval s) then [] else progress_notice (main_time s + 1) (max_sim_time s))"
  by (simp add: loop_body_explicit)

text \<open>
  Claim C9, amended. The progress block prints a notice exactly when the time is
  positive, the maximum exceeds 10 and the time is a multiple of
  \<open>max_sim_time div 10\<close>; when the maximum is a multiple of 10 these are the times
  \<open>k * max_sim_time / 10\<close> and the notice shows \<open>10 * k\<close> percent. An iteration
  prints it after the bus diagnostics unless it leaves the loop by \<open>break\<close>. The
  block changes nothing but \<open>std::cerr\<close>, and what \<open>std::cerr\<close> holds has no effect
  on whether an iteration stops or on any other part of the state, for one
  iteration and for the whole loop.
\<close>

theorem progress_notice_spec:
  "(progress_notice t m \<noteq> [] \<longleftrightarrow> 0 < t \<and> 10 < m \<and> (m div 10) dvd t) \<and>
   (10 dvd m \<and> 10 < m \<and> 0 < t \<and> t * 100 < 2 ^ 64 \<longrightarrow>
      progress_notice t m =
        (if m dvd 10 * t then [SimulationProgress (10 * (10 * t div m))] else [])) \<and>
   cerr (snd (loop_body eval s)) =
     cerr (serviced eval s) @
     (if fst (loop_body eval s) then [] else progress_notice (main_time s + 1) (max_sim_time s)) \<and>
   same_but_cerr (report_progress s) s \<and>
   fst (loop_body eval (s\<lparr>cerr := c\<rparr>)) = fst (loop_body eval s) \<and>
   same_but_cerr (snd (loop_body eval s)) (snd (loop_body eval (s\<lparr>cerr := c\<rparr>))) \<and>
   same_but_cerr (run_loop eval s) (run_loop eval (s\<lparr>cerr := c\<rparr>))"
proof -
  have "same_but_cerr s (s\<lparr>cerr := c\<rparr>)"
    by (simp add: same_but_cerr_def)
  then have "same_but_cerr (run_loop eval s) (run_loop eval (s\<lparr>cerr := c\<rparr>))"
    by (rule run_loop_cerr)
  then show ?thesis
    using progress_notice_emitted [of t m] progress_notice_tenths [of m t]
      loop_body_messages [of eval s] report_progress_cerr [of s]
      loop_body_cerr [where eval = eval and s = s and c = c]
    by blast
qed

theorem progress_notice_spec_witness:
  "progress_notice 4 20 = [SimulationProgress 20] \<and> progress_notice 5 20 = [] \<and>
   progress_notice 4 10 = []"
proof -
  have "(10::nat) dvd 20 \<and> (10::nat) < 20 \<and> (0::nat) < 4 \<and> (4::nat) * 100 < 2 ^ 64"
    and "(10::nat) dvd 20 \<and> (10::nat) < 20 \<and> (0::nat) < 5 \<and> (5::nat) * 100 < 2 ^ 64"
    by simp_all
  with progress_notice_spec [where t = 4 and m = 20 and eval = idle_core and s = bench and c = "[]"]
    progress_notice_spec [where t = 5 and m = 20 and eval = idle_core and s = bench and c = "[]"]
    progress_notice_spec [where t = 4 and m = 10 and eval = idle_core and s = bench and c = "[]"]
  show ?thesis
    by simp
qed

text \<open>
  Claim C9 as stated fails: with a maximum of 25, time 5 is the 20 percent boundary
  and nothing is printed there, while a notice of 8 percent is printed at time 2.
\<close>

theorem progress_notice_counterexample:
  "(5::nat) * 100 = 20 * 25 \<and> progress_notice 5 25 = [] \<and>
   progress_notice 2 25 = [SimulationProgress 8]"
  by (simp add: progress_notice_def)

section \<open>Signature\<close>

lemma hex_digit_value_inverse: "d < 16 \<Longrightarrow> hex_digit_value (hex_digit d) = d"
proof -
  assume "d < 16"
  then consider "d = 0" | "d = 1" | "d = 2" | "d = 3" | "d = 4" | "d = 5" | "d = 6" | "d = 7"
    | "d = 8" | "d = 9" | "d = 10" | "d = 11" | "d = 12" | "d = 13" | "d = 14" | "d = 15"
    by atomize_elim arith
  then show ?thesis
    by cases (simp_all add: hex_digit_value_def hex_digit_def)
qed

lemma hex_digit_in: "d < 16 \<Longrightarrow> hex_digit d \<in> set ''0123456789abcdef''"
  unfolding hex_digit_def by (rule nth_mem) simp

lemma hex_value_append: "hex_value (xs @ [c]) = 16 * hex_value xs + hex_digit_value c"
  by (simp add: hex_value_def)

lemma hex_value_digits: "hex_value (hex_digits n) = n"
proof (induction n rule: hex_digits.induct)
  case (1 n)
  show ?case
  proof (cases "n < 16")
    case True
    then show ?thesis
      by (simp add: hex_digits.simps [of n] hex_value_def hex_digit_value_inverse)
  next
    case False
    with 1 show ?thesis
      by (simp add: hex_digits.simps [of n] hex_value_append hex_digit_value_inverse)
  qed
qed

lemma set_hex_digits: "set (hex_digits n) \<subseteq> set ''0123456789abcdef''"
proof (induction n rule: hex_digits.induct)
  case (1 n)
  show ?case
  proof (cases "n < 16")
    case True
    then show ?thesis
      using hex_digit_in [of n] by (simp add: hex_digits.simps [of n])
  next
    case False
    with 1 have "set (hex_digits (n div 16)) \<subseteq> set ''0123456789abcdef''" by simp
    moreover have "hex_digit (n mod 16) \<in> set ''0123456789abcdef''"
      by (rule hex_digit_in) simp
    ultimately show ?thesis
      using False by (simp add: hex_digits.simps [of n])
  qed
qed

lemma length_hex_digits: "0 < k \<Longrightarrow> n < 16 ^ k \<Longrightarrow> length (hex_digits n) \<le> k"
proof (induction n arbitrary: k rule: hex_digits.induct)
  case (1 n)
  show ?case
  proof (cases "n < 16")
    case True
    with "1.prems" show ?thesis by (simp add: hex_digits.simps [of n])
  next
    case False
    with "1.prems" have k: "1 < k"
      by (cases "k = 1") auto
    then obtain k' where k': "k = Suc k'" "0 < k'"
      by (cases k) auto
    with "1.prems" have "n div 16 < 16 ^ k'"
      by (simp add: less_mult_imp_div_less mult.commute)
    from "1.IH" [OF False k'(2) this] show ?thesis
      using False k' by (simp add: hex_digits.simps [of n])
  qed
qed

lemma hex_value_zeros: "hex_value (replicate k (CHR ''0'') @ xs) = hex_value xs"
proof -
  have z: "hex_digit_value (CHR ''0'') = 0" by (simp add: hex_digit_value_def)
  have "foldl (\<lambda>acc c. 16 * acc + hex_digit_value c) 0 (replicate k (CHR ''0'')) = 0"
    by (induction k) (simp_all add: z)
  then show ?thesis by (simp add: hex_value_def)
qed

lemma snprintf_08x_spec:
  "length (snprintf_08x 9 v) = 8 \<and>
   set (snprintf_08x 9 v) \<subseteq> set ''0123456789abcdef'' \<and>
   hex_value (snprintf_08x 9 v) = unat v"
proof -
  have "unat v < 2 ^ 32" using unsigned_less [of v, where 'a = nat] by simp
  then have "unat v < 16 ^ 8" by simp
  then have l: "length (hex_digits (unat v)) \<le> 8"
    by (intro length_hex_digits) simp_all
  let ?p = "replicate (8 - length (hex_digits (unat v))) (CHR ''0'') @ hex_digits (unat v)"
  from l have lp: "length ?p = 8" by simp
  then have t: "snprintf_08x 9 v = ?p"
    by (simp add: snprintf_08x_def Let_def)
  have "set ?p \<subseteq> set ''0123456789abcdef''"
    using set_hex_digits [of "unat v"] by auto
  moreover have "hex_value ?p = unat v"
    by (simp only: hex_value_zeros hex_value_digits)
  ultimately show ?thesis
    using lp unfolding t by blast
qed

lemma signature_lines_map:
  "signature_lines mem addr sig_end =
     map (\<lambda>k. snprintf_08x 9 (Memory_read mem (addr + 4 * k))) [0 ..< (sig_end + 3 - addr) div 4]"
proof (induction mem addr sig_end rule: signature_lines.induct)
  case (1 mem addr sig_end)
  show ?case
  proof (cases "addr < sig_end")
    case False
    then show ?thesis by (simp add: signature_lines.simps [of mem addr])
  next
    case True
    define n where "n = (sig_end + 3 - (addr + 4)) div 4"
    have n: "(sig_end + 3 - addr) div 4 = Suc n" "(sig_end + 3 - (addr + 4)) div 4 = n"
      using True unfolding n_def by arith+
    have "[0 ..< Suc n] = 0 # map Suc [0 ..< n]"
      by (simp add: upt_conv_Cons map_Suc_upt del: upt_Suc)
    with 1 [OF True] n True show ?thesis
      by (simp add: signature_lines.simps [of mem addr] comp_def add.assoc del: upt_Suc)
  qed
qed

text \<open>
  Claim C7. With \<open>signature_begin\<close> and \<open>signature_end\<close> multiples of 4 and a file
  that opens, the file holds \<open>(signature_end - signature_begin) div 4\<close> lines (none
  when the end is not above the begin); line \<open>k\<close> is the formatted word read at
  \<open>signature_begin + 4 * k\<close>, so the addresses ascend by 4; and a formatted word is
  eight characters among \<open>0123456789abcdef\<close> whose value as a hexadecimal number is
  the word.
\<close>

theorem signature_spec:
  assumes "4 dvd unat (signature_begin s)" and "4 dvd unat (signature_end s)"
  shows "signature_file (generate_signature True s) =
           Some (map (\<lambda>k. snprintf_08x 9 (Memory_read (memory s) (unat (signature_begin s) + 4 * k)))
                  [0 ..< (unat (signature_end s) - unat (signature_begin s)) div 4]) \<and>
         length (signature_lines (memory s) (unat (signature_begin s)) (unat (signature_end s))) =
           (unat (signature_end s) - unat (signature_begin s)) div 4 \<and>
         (\<forall>v. length (snprintf_08x 9 v) = 8 \<and>
              set (snprintf_08x 9 v) \<subseteq> set ''0123456789abcdef'' \<and>
              hex_value (snprintf_08x 9 v) = unat v)"
proof -
  from assms
  have n: "(unat (signature_end s) + 3 - unat (signature_begin s)) div 4 =
        (unat (signature_end s) - unat (signature_begin s)) div 4"
    by (elim dvdE) (simp, arith)
  have "signature_file (generate_signature True s) =
           Some (map (\<lambda>k. snprintf_08x 9 (Memory_read (memory s) (unat (signature_begin s) + 4 * k)))
                  [0 ..< (unat (signature_end s) - unat (signature_begin s)) div 4])"
    by (simp add: generate_signature_def signature_lines_map n)
  moreover
  have "length (signature_lines (memory s) (unat (signature_begin s)) (unat (signature_end s))) =
           (unat (signature_end s) - unat (signature_begin s)) div 4"
    by (simp add: signature_lines_map n)
  ultimately show ?thesis
    using snprintf_08x_spec by blast
qed

theorem signature_spec_witness:
  "signature_file (generate_signature True signature_bench) = Some [''babecafe'', ''000000ff'']"
proof -
  have b: "4 dvd unat (signature_begin signature_bench)"
    and e: "4 dvd unat (signature_end signature_bench)"
    by (simp_all add: signature_bench_def)
  have r: "replicate 6 (CHR ''0'') = ''000000''"
    by (simp add: numeral_eq_Suc)
  have "snprintf_08x 9 0xBABECAFE = ''babecafe''" and "snprintf_08x 9 255 = ''000000ff''"
    by (simp_all add: snprintf_08x_def hex_digits.simps hex_digit_def Let_def r)
  then have "map (\<lambda>k. snprintf_08x 9 (Memory_read [1, 0xBABECAFE, 255, 0] (4 + 4 * k))) [0 ..< 2] =
        [''babecafe'', ''000000ff'']"
    by (simp add: Memory_read_def upt_rec [of _ 2] upt_rec [of _ 1])
  with signature_spec [OF b e] show ?thesis
    by (simp add: signature_bench_def)
qed


end
